theory Spec2Isabelle
  imports Complex_Main "HOL-Library.Word"
begin

unbundle bit_operations_syntax

section \<open>JavaScript numbers\<close>

text \<open>
  The engine computes on JavaScript numbers. A number is modelled as an exact real, or one
  of the three special values that IEEE-754 division, square root and exponential produce.
  Rounding to 53 bits, overflow to infinity, underflow to zero and the sign of zero are not
  modelled: a finite result is the exact real result, and a zero divisor counts as
  \<open>+0\<close>. (So a product that underflows in the code, such as the square of an MDE
  below \<open>1e-162\<close>, is a positive real here.) The one product that is rounded as the
  code rounds it is the one under the floor of a cohort size. Integer-valued
  quantities (counts, indices, sample sizes) are \<open>int\<close> or \<open>nat\<close>; 32-bit
  bitwise arithmetic is done on \<open>32 word\<close>.
\<close>

datatype jsnum = Num real | PInf | NInf | NaN

fun jneg :: "jsnum \<Rightarrow> jsnum" where
  "jneg (Num x) = Num (- x)"
| "jneg PInf = NInf"
| "jneg NInf = PInf"
| "jneg NaN = NaN"

fun jabs :: "jsnum \<Rightarrow> jsnum" where
  "jabs (Num x) = Num \<bar>x\<bar>"
| "jabs PInf = PInf"
| "jabs NInf = PInf"
| "jabs NaN = NaN"

fun jadd :: "jsnum \<Rightarrow> jsnum \<Rightarrow> jsnum" where
  "jadd (Num a) (Num b) = Num (a + b)"
| "jadd NaN _ = NaN"
| "jadd _ NaN = NaN"
| "jadd PInf NInf = NaN"
| "jadd NInf PInf = NaN"
| "jadd PInf _ = PInf"
| "jadd _ PInf = PInf"
| "jadd NInf _ = NInf"
| "jadd _ NInf = NInf"

definition jsub :: "jsnum \<Rightarrow> jsnum \<Rightarrow> jsnum" where
  "jsub a b = jadd a (jneg b)"

definition signedInf :: "real \<Rightarrow> jsnum" where
  "signedInf s = (if s > 0 then PInf else if s < 0 then NInf else NaN)"

fun jmul :: "jsnum \<Rightarrow> jsnum \<Rightarrow> jsnum" where
  "jmul (Num a) (Num b) = Num (a * b)"
| "jmul NaN _ = NaN"
| "jmul _ NaN = NaN"
| "jmul (Num a) PInf = signedInf a"
| "jmul (Num a) NInf = signedInf (- a)"
| "jmul PInf (Num b) = signedInf b"
| "jmul NInf (Num b) = signedInf (- b)"
| "jmul PInf PInf = PInf"
| "jmul NInf NInf = PInf"
| "jmul PInf NInf = NInf"
| "jmul NInf PInf = NInf"

fun jdiv :: "jsnum \<Rightarrow> jsnum \<Rightarrow> jsnum" where
  "jdiv (Num a) (Num b) = (if b \<noteq> 0 then Num (a / b) else signedInf a)"
| "jdiv NaN _ = NaN"
| "jdiv _ NaN = NaN"
| "jdiv (Num a) PInf = Num 0"
| "jdiv (Num a) NInf = Num 0"
| "jdiv PInf (Num b) = (if b \<ge> 0 then PInf else NInf)"
| "jdiv NInf (Num b) = (if b \<ge> 0 then NInf else PInf)"
| "jdiv PInf PInf = NaN"
| "jdiv PInf NInf = NaN"
| "jdiv NInf PInf = NaN"
| "jdiv NInf NInf = NaN"

fun jsqrt :: "jsnum \<Rightarrow> jsnum" where
  "jsqrt (Num x) = (if x \<ge> 0 then Num (sqrt x) else NaN)"
| "jsqrt PInf = PInf"
| "jsqrt NInf = NaN"
| "jsqrt NaN = NaN"

fun jexp :: "jsnum \<Rightarrow> jsnum" where
  "jexp (Num x) = Num (exp x)"
| "jexp PInf = PInf"
| "jexp NInf = Num 0"
| "jexp NaN = NaN"

text \<open>\<open>a >= b\<close>: false as soon as one side is not a number.\<close>

fun jge :: "jsnum \<Rightarrow> jsnum \<Rightarrow> bool" where
  "jge (Num a) (Num b) = (a \<ge> b)"
| "jge NaN _ = False"
| "jge _ NaN = False"
| "jge PInf _ = True"
| "jge _ NInf = True"
| "jge _ PInf = False"
| "jge NInf _ = False"



definition isNaN :: "jsnum \<Rightarrow> bool" where
  "isNaN x = (x = NaN)"


section \<open>Helpers\<close>

subsection \<open>createPRNG: xorshift32\<close>

type_synonym u32 = "32 word"

text \<open>
  \<open>createPRNG(seed)\<close> closes over the state \<open>s = seed >>> 0\<close>; the model returns that
  state, and \<open>rand\<close> takes the state and returns the draw with the state after it.
\<close>

definition createPRNG :: "u32 \<Rightarrow> u32" where
  "createPRNG seed = seed"

definition xorshift32 :: "u32 \<Rightarrow> u32" where
  "xorshift32 s =
     (let s1 = s XOR push_bit 13 s;
          s2 = s1 XOR drop_bit 17 s1;
          s3 = s2 XOR push_bit 5 s2
      in s3)"

definition rand :: "u32 \<Rightarrow> real \<times> u32" where
  "rand s = (let s' = xorshift32 s in (real (unat s') / 4294967295, s'))"

text \<open>The stream of draws: the \<open>n\<close>-th call of \<open>rand\<close> after \<open>createPRNG seed\<close>.\<close>

definition draw :: "u32 \<Rightarrow> nat \<Rightarrow> real" where
  "draw seed n = fst (rand ((xorshift32 ^^ n) (createPRNG seed)))"

subsection \<open>boxMuller\<close>

text \<open>
  \<open>while (u === 0) u = rand();\<close> draws until the draw is not zero. The loop need not
  end, so it is a partial function: \<open>None\<close> is the loop that runs forever.
\<close>

partial_function (option) drawNonzero :: "u32 \<Rightarrow> (real \<times> u32) option" where
  "drawNonzero s =
     (case rand s of (u, s') \<Rightarrow> if u = 0 then drawNonzero s' else Some (u, s'))"

definition boxMuller :: "u32 \<Rightarrow> (real \<times> u32) option" where
  "boxMuller s =
     (case drawNonzero s of
        None \<Rightarrow> None
      | Some (u, s1) \<Rightarrow>
          (case drawNonzero s1 of
             None \<Rightarrow> None
           | Some (v, s2) \<Rightarrow> Some (sqrt (- 2 * ln u) * cos (2 * pi * v), s2)))"

definition clamp :: "real \<Rightarrow> real \<Rightarrow> real \<Rightarrow> real" where
  "clamp x lo hi = max lo (min hi x)"

subsection \<open>Normal distribution\<close>

definition stdNormCDF :: "jsnum \<Rightarrow> jsnum" where
  "stdNormCDF x =
     (let t = jdiv (Num 1) (jadd (Num 1) (jmul (Num 0.2316419) (jabs x)));
          d = jmul (Num 0.3989423) (jexp (jdiv (jmul (jneg x) x) (Num 2)));
          prob = jsub (Num 1) (jmul (jmul d t)
                   (jadd (Num 1.330274429) (jmul t
                   (jadd (Num (- 1.821255978)) (jmul t
                   (jadd (Num 1.781477937) (jmul t
                   (jadd (Num (- 0.356563782)) (jmul t (Num 0.319381530))))))))))
      in if jge x (Num 0) then prob else jsub (Num 1) prob)"

definition twoTailedP :: "jsnum \<Rightarrow> jsnum" where
  "twoTailedP z = jmul (Num 2) (jsub (Num 1) (stdNormCDF (jabs z)))"

definition plow :: real where
  "plow = 0.02425"

definition phigh :: real where
  "phigh = 1 - plow"

definition invNormLow :: "real \<Rightarrow> real" where
  "invNormLow q =
     (((((- 0.007784894002430293 * q + - 0.3223964580411365) * q + - 2.400758277161838) * q
         + - 2.549732539343734) * q + 4.374664141464968) * q + 2.938163982698783) /
     ((((0.007784695709041462 * q + 0.3224671290700398) * q + 2.445134137142996) * q
         + 3.754408661907416) * q + 1)"

definition invNormMid :: "real \<Rightarrow> real" where
  "invNormMid q =
     (let r = q * q in
      (((((- 39.69683028665376 * r + 220.9460984245205) * r + - 275.9285104469687) * r
          + 138.3577518672690) * r + - 30.66479806614716) * r + 2.506628277459239) * q /
      (((((- 54.47609879822406 * r + 161.5858368580409) * r + - 155.6989798598866) * r
          + 66.80131188771972) * r + - 13.28068155288572) * r + 1))"

fun invNorm :: "jsnum \<Rightarrow> jsnum" where
  "invNorm (Num p) =
     (if p \<le> 0 \<or> p \<ge> 1 then NaN
      else if p < plow then Num (invNormLow (sqrt (- 2 * ln p)))
      else if p > phigh then Num (- invNormLow (sqrt (- 2 * ln (1 - p))))
      else Num (invNormMid (p - 0.5)))"
| "invNorm _ = NaN"

subsection \<open>computeSampleSize\<close>

text \<open>The fields of the argument object are the arguments, in the order
  \<open>sigma2, mdeAbs, alpha, power\<close> (\<open>pwr\<close> here).\<close>

definition computeSampleSize :: "real \<Rightarrow> real \<Rightarrow> real \<Rightarrow> real \<Rightarrow> jsnum" where
  "computeSampleSize sigma2 mdeAbs alpha pwr =
     (let zAlpha = invNorm (Num (1 - alpha / 2));
          zPower = invNorm (Num pwr)
      in case (zAlpha, zPower) of
           (Num za, Num zp) \<Rightarrow>
             if mdeAbs > 0 \<and> sigma2 > 0
             then (let num = 2 * (za + zp) * (za + zp) * sigma2;
                       n = \<lceil>num / (mdeAbs * mdeAbs)\<rceil>
                   in Num (of_int (max 2 n)))
             else NaN
         | _ \<Rightarrow> NaN)"

subsection \<open>hashStr\<close>

definition hashStr :: "string \<Rightarrow> u32" where
  "hashStr s = foldl (\<lambda>h c. (push_bit 5 h - h) + of_nat (of_char c)) 0 s"


section \<open>Data\<close>

text \<open>
  The metric keys of \<open>METRICS\<close>. A key is used as a string where the code hashes it or
  builds a property name from it (\<open>keyName\<close>), and as a property of a daily record where
  the code reads \<open>d[metricKey]\<close> (\<open>metricValue\<close>).
\<close>

datatype metric =
  K_DAU | K_WAU | K_Sessions | K_Logins | K_Signups
| K_VideoViews | K_Shares | K_Comments | K_Likes

fun keyName :: "metric \<Rightarrow> string" where
  "keyName K_DAU = ''DAU''"
| "keyName K_WAU = ''WAU''"
| "keyName K_Sessions = ''Sessions''"
| "keyName K_Logins = ''Logins''"
| "keyName K_Signups = ''Signups''"
| "keyName K_VideoViews = ''VideoViews''"
| "keyName K_Shares = ''Shares''"
| "keyName K_Comments = ''Comments''"
| "keyName K_Likes = ''Likes''"

definition METRICS :: "metric list" where
  "METRICS = [K_DAU, K_WAU, K_Sessions, K_Logins, K_Signups,
              K_VideoViews, K_Shares, K_Comments, K_Likes]"


definition GUARDRAIL_KEYS :: "metric list" where
  "GUARDRAIL_KEYS = [K_DAU, K_WAU, K_Sessions, K_Logins, K_Signups]"

text \<open>
  A daily record as \<open>generateData\<close> builds it: the date, its label and one integer count
  per metric. \<open>cohort\<close> holds the properties that \<open>simulateAB\<close> adds under computed
  names (\<open>`${key}_Control`\<close>, \<open>`${key}_Experiment`\<close>); it is empty in a baseline record.
\<close>

datatype cell = Null | Count int

record row =
  date :: string
  DAU :: int
  Sessions :: int
  Logins :: int
  Signups :: int
  VideoViews :: int
  Shares :: int
  Comments :: int
  Likes :: int
  WAU :: int
  label :: string
  cohort :: "string \<rightharpoonup> cell"

fun metricValue :: "row \<Rightarrow> metric \<Rightarrow> int" where
  "metricValue d K_DAU = DAU d"
| "metricValue d K_WAU = WAU d"
| "metricValue d K_Sessions = Sessions d"
| "metricValue d K_Logins = Logins d"
| "metricValue d K_Signups = Signups d"
| "metricValue d K_VideoViews = VideoViews d"
| "metricValue d K_Shares = Shares d"
| "metricValue d K_Comments = Comments d"
| "metricValue d K_Likes = Likes d"

section \<open>A/B stats and simulation\<close>

definition zCritical :: real where
  "zCritical = 1.96"

definition basePerUser :: "metric \<Rightarrow> row list \<Rightarrow> real" where
  "basePerUser metricKey data =
     (case foldl (\<lambda>(met, users) d. (met + metricValue d metricKey, users + DAU d)) (0, 0) data of
        (met, users) \<Rightarrow> if users > 0 then real_of_int met / real_of_int users else 0)"

definition basePerUserUntil :: "metric \<Rightarrow> row list \<Rightarrow> nat \<Rightarrow> real" where
  "basePerUserUntil metricKey data endIndex =
     (let slice = take endIndex data in
      if length slice = 0 then basePerUser metricKey data
      else case foldl (\<lambda>(met, users) d. (met + metricValue d metricKey, users + DAU d)) (0, 0) slice of
             (met, users) \<Rightarrow>
               if users > 0 then real_of_int met / real_of_int users
               else basePerUser metricKey data)"

text \<open>\<open>sum | 0\<close> of an integer sum is the sum modulo \<open>2^32\<close>.\<close>

definition mixedSeed :: "metric \<Rightarrow> row list \<Rightarrow> u32 \<Rightarrow> u32" where
  "mixedSeed metricKey data seed =
     (let sum = foldl (\<lambda>s d. s + metricValue d metricKey) 0 data
      in (seed XOR 0x9e3779b9) XOR word_of_int sum)"

definition deriveDataDrivenLift :: "metric \<Rightarrow> row list \<Rightarrow> u32 \<Rightarrow> real option" where
  "deriveDataDrivenLift metricKey data seed =
     (let r = createPRNG (mixedSeed metricKey data seed)
      in case boxMuller r of
           None \<Rightarrow> None
         | Some (z, r') \<Rightarrow> Some (clamp (0.10 + 0.10 * z) (- 0.5) 2.0))"

subsection \<open>computeStats\<close>

record stats =
  st_muC :: real
  st_muT :: real
  st_diff :: real
  st_z :: jsnum
  st_p :: jsnum
  st_ciLow :: jsnum
  st_ciHigh :: jsnum
  st_lift :: jsnum

definition computeStats :: "real \<Rightarrow> real \<Rightarrow> real \<Rightarrow> real \<Rightarrow> real \<Rightarrow> stats" where
  "computeStats muC liftPct nC nT varBoost =
     (let muT = muC * (1 + liftPct);
          varC = muC * (1 + varBoost);
          varT = muT * (1 + varBoost);
          diff = muT - muC;
          se = jsqrt (jadd (jdiv (Num varT) (Num nT)) (jdiv (Num varC) (Num nC)));
          z = jdiv (Num diff) se;
          p = twoTailedP z;
          ciLow = jsub (Num diff) (jmul (Num zCritical) se);
          ciHigh = jadd (Num diff) (jmul (Num zCritical) se)
      in \<lparr> st_muC = muC, st_muT = muT, st_diff = diff, st_z = z, st_p = p,
           st_ciLow = ciLow, st_ciHigh = ciHigh, st_lift = jdiv (Num diff) (Num muC) \<rparr>)"

subsection \<open>simulateAB\<close>

text \<open>
  The records of a series are objects that the code shares by reference and writes to, so
  they live in a store: an address is an index into the list of objects, and a series (a
  JavaScript array that the code only reads) is the list of the addresses of its records.
\<close>

type_synonym store = "row list"

definition deref :: "store \<Rightarrow> nat list \<Rightarrow> row list" where
  "deref h data = map (\<lambda>a. h ! a) data"

text \<open>\<open>obj[k] = v\<close> on the object at address \<open>a\<close>.\<close>

definition setCohort :: "nat \<Rightarrow> string \<Rightarrow> cell \<Rightarrow> store \<Rightarrow> store" where
  "setCohort a k v h = h[a := (h ! a)\<lparr>cohort := (cohort (h ! a))(k \<mapsto> v)\<rparr>]"

text \<open>\<open>data.map(row => ({ ...row }))\<close>: one new object per record, allocated at the
  end of the store, with the properties of the record it copies.\<close>

definition copyRows :: "store \<Rightarrow> nat list \<Rightarrow> store \<times> nat list" where
  "copyRows h data = (h @ deref h data, [length h ..< length h + length data])"

record params =
  seed :: u32
  splitC :: real
  splitT :: real
  testLen :: int
  enforceNoDecline :: bool

record aggregate =
  muC :: real
  muT :: real
  liftPct :: real
  aggStartIndex :: nat
  daysInTest :: nat
  NtotC :: int
  NtotT :: int

record simResult =
  simData :: "nat list"
  aggregates :: "string \<rightharpoonup> aggregate"
  startIndex :: nat

text \<open>The lift of a metric as \<open>simulateAB\<close> uses it (the first statements of the
  \<open>forEach\<close> body after \<open>muC_pre\<close>).\<close>

definition usedLift :: "params \<Rightarrow> metric \<Rightarrow> row list \<Rightarrow> real option" where
  "usedLift p key data =
     (case deriveDataDrivenLift key data (seed p) of
        None \<Rightarrow> None
      | Some lift \<Rightarrow>
          Some (if enforceNoDecline p \<and> key \<in> set GUARDRAIL_KEYS then max 0 lift else lift))"

text \<open>The first loop of the \<open>forEach\<close> body, over the copies.\<close>

fun nullLoop :: "string \<Rightarrow> nat list \<Rightarrow> store \<Rightarrow> store" where
  "nullLoop k [] h = h"
| "nullLoop k (a # out) h =
     nullLoop k out
       (setCohort a (k @ ''_Experiment'') Null (setCohort a (k @ ''_Control'') Null h))"

text \<open>
  The cohort sizes of a day are floors of a product of doubles, and a floor does not
  forgive the rounding of the product: \<open>1300 * 0.35\<close> is \<open>454.99999999999994\<close> in
  JavaScript. So this product is the one of binary64. \<open>float64 x\<close> is the double nearest
  to the real \<open>x\<close>, ties to the even significand: \<open>ulpExp x\<close> is the exponent of the
  unit in the last place of \<open>x\<close> (53 bits of significand, the subnormal numbers below
  \<open>2^-1022\<close>), and \<open>x\<close> is rounded to a multiple of that unit. Overflow is left out:
  the product of a DAU and a split in \<open>[0, 1]\<close> does not exceed the DAU.
\<close>

definition roundTiesEven :: "real \<Rightarrow> int" where
  "roundTiesEven y =
     (let f = \<lfloor>y\<rfloor>; d = y - of_int f
      in if d < 1 / 2 then f else if d > 1 / 2 then f + 1 else if even f then f else f + 1)"

definition ulpExp :: "real \<Rightarrow> int" where
  "ulpExp x = max \<lfloor>log 2 \<bar>x\<bar>\<rfloor> (- 1022) - 52"

definition float64 :: "real \<Rightarrow> real" where
  "float64 x = of_int (roundTiesEven (x / 2 powr of_int (ulpExp x))) * 2 powr of_int (ulpExp x)"

text \<open>
  The cohort sizes of a day,
  \<open>Math.max(0, Math.floor(dauDay * clamp(split, 0, 1)))\<close>. The split that the code
  holds is a double: it is \<open>float64 split\<close>, which is \<open>split\<close> itself when \<open>split\<close> is
  a double, and the double that the decimal literal denotes otherwise (\<open>0.35\<close> is not a
  double). \<open>dauDay\<close> is an integer that a double holds exactly, \<open>clamp\<close> returns one of
  its arguments, and the floor of a double is exact; the product is rounded.
\<close>

definition cohortSize :: "int \<Rightarrow> real \<Rightarrow> int" where
  "cohortSize dauDay split =
     max 0 \<lfloor>float64 (real_of_int dauDay * clamp (float64 split) 0 1)\<rfloor>"

text \<open>\<open>Math.round\<close> rounds half up.\<close>

definition jsRound :: "real \<Rightarrow> int" where
  "jsRound x = \<lfloor>x + 1 / 2\<rfloor>"

text \<open>One iteration of the second loop, for day \<open>i\<close>; the state is the store and the
  running \<open>sumC, sumE, NtotC, NtotT\<close> (\<open>totC, totT\<close> here).\<close>

type_synonym loopState = "store \<times> int \<times> int \<times> int \<times> int"

fun dayStep ::
  "params \<Rightarrow> metric \<Rightarrow> real \<Rightarrow> real \<Rightarrow> nat list \<Rightarrow> nat \<Rightarrow> loopState \<Rightarrow> loopState option" where
  "dayStep p key muC_pre lift out i (h, sumC, sumE, totC, totT) =
     (let r = createPRNG (seed p XOR hashStr (keyName key) XOR of_nat i);
          dauDay = DAU (h ! (out ! i));
          nC_day = cohortSize dauDay (splitC p);
          nT_day = cohortSize dauDay (splitT p)
      in if key = K_DAU then
           Some (setCohort (out ! i) (keyName key @ ''_Experiment'') (Count nT_day)
                   (setCohort (out ! i) (keyName key @ ''_Control'') (Count nC_day) h),
                 sumC + nC_day, sumE + nT_day, totC + nC_day, totT + nT_day)
         else
           (let varPerUserC = muC_pre * (1 + 0.05);
               varPerUserE = muC_pre * (1 + lift) * (1 + 0.05);
               meanC = muC_pre * real_of_int nC_day;
               meanE = muC_pre * (1 + lift) * real_of_int nT_day;
               sdC = sqrt (max (1 / 10 ^ 9) (varPerUserC * real_of_int nC_day));
               sdE = sqrt (max (1 / 10 ^ 9) (varPerUserE * real_of_int nT_day))
           in case boxMuller r of
                None \<Rightarrow> None
              | Some (z1, r1) \<Rightarrow>
                  (case boxMuller r1 of
                     None \<Rightarrow> None
                   | Some (z2, r2) \<Rightarrow>
                       let sampleC = max 0 (jsRound (meanC + sdC * z1));
                           sampleE = max 0 (jsRound (meanE + sdE * z2))
                       in Some (setCohort (out ! i) (keyName key @ ''_Experiment'') (Count sampleE)
                                  (setCohort (out ! i) (keyName key @ ''_Control'') (Count sampleC) h),
                                sumC + sampleC, sumE + sampleE, totC + nC_day, totT + nT_day))))"

fun dayLoop ::
  "params \<Rightarrow> metric \<Rightarrow> real \<Rightarrow> real \<Rightarrow> nat list \<Rightarrow> nat list \<Rightarrow> loopState \<Rightarrow> loopState option" where
  "dayLoop p key muC_pre lift out [] st = Some st"
| "dayLoop p key muC_pre lift out (i # days) st =
     (case dayStep p key muC_pre lift out i st of
        None \<Rightarrow> None
      | Some st' \<Rightarrow> dayLoop p key muC_pre lift out days st')"

definition simStartIndex :: "nat \<Rightarrow> params \<Rightarrow> nat" where
  "simStartIndex len p = nat (max 0 (int len - testLen p))"

text \<open>The body of \<open>METRICS.forEach\<close>.\<close>

fun metricStep ::
  "params \<Rightarrow> nat list \<Rightarrow> nat list \<Rightarrow> metric \<Rightarrow>
   store \<times> (string \<rightharpoonup> aggregate) \<Rightarrow> (store \<times> (string \<rightharpoonup> aggregate)) option" where
  "metricStep p data out key (h, aggs) =
     (let len = length data;
          start = simStartIndex len p;
          muC_pre = basePerUserUntil key (deref h data) start
      in case usedLift p key (deref h data) of
           None \<Rightarrow> None
         | Some lift \<Rightarrow>
             (case dayLoop p key muC_pre lift out [start ..< len]
                     (nullLoop (keyName key) out h, 0, 0, 0, 0) of
                None \<Rightarrow> None
              | Some (h', sumC, sumE, totC, totT) \<Rightarrow>
                  (let days = max 1 (len - start);
                      muC_real = (if totC > 0 then real_of_int sumC / real_of_int totC else 0);
                      muT_real = (if totT > 0 then real_of_int sumE / real_of_int totT else 0);
                      lift_real = (if muC_real > 0 then muT_real / muC_real - 1 else 0)
                  in Some (h', aggs(keyName key \<mapsto>
                       \<lparr> muC = muC_real, muT = muT_real, liftPct = lift_real,
                         aggStartIndex = start, daysInTest = days,
                         NtotC = totC, NtotT = totT \<rparr>)))))"

fun forEachMetric ::
  "params \<Rightarrow> nat list \<Rightarrow> nat list \<Rightarrow> metric list \<Rightarrow>
   store \<times> (string \<rightharpoonup> aggregate) \<Rightarrow> (store \<times> (string \<rightharpoonup> aggregate)) option" where
  "forEachMetric p data out [] st = Some st"
| "forEachMetric p data out (key # keys) st =
     (case metricStep p data out key st of
        None \<Rightarrow> None
      | Some st' \<Rightarrow> forEachMetric p data out keys st')"

text \<open>\<open>simulateAB\<close> takes the store and returns it with the result; \<open>None\<close> is a call
  that does not return.\<close>

definition simulateAB :: "store \<Rightarrow> nat list \<Rightarrow> params \<Rightarrow> (store \<times> simResult) option" where
  "simulateAB h data p =
     (let len = length data;
          start = simStartIndex len p
      in case copyRows h data of
           (h1, out) \<Rightarrow>
             (case forEachMetric p data out METRICS (h1, Map.empty) of
                None \<Rightarrow> None
              | Some (h2, aggs) \<Rightarrow>
                  Some (h2, \<lparr> simData = out, aggregates = aggs, startIndex = start \<rparr>)))"


subsection \<open>The statistics of a table row\<close>

text \<open>The caller of \<open>computeStats\<close>: a row of the A/B table, from the aggregates
  that \<open>simulateAB\<close> returned (the guardrail and the success section of the table
  compute a row in the same way).\<close>

definition tableStats ::
  "(string \<rightharpoonup> aggregate) \<Rightarrow> metric \<Rightarrow> row list \<Rightarrow> u32 \<Rightarrow> stats option" where
  "tableStats aggs key data sd =
     (let agg = aggs (keyName key);
          muC' = (case agg of Some a \<Rightarrow> muC a | None \<Rightarrow> basePerUser key data);
          muT_opt = (case agg of
                       Some a \<Rightarrow> Some (muT a)
                     | None \<Rightarrow> map_option (\<lambda>l. muC' * (1 + l)) (deriveDataDrivenLift key data sd))
      in case muT_opt of
           None \<Rightarrow> None
         | Some muT' \<Rightarrow>
             (let liftPct' = (if muC' > 0 then muT' / muC' - 1 else 0);
                 nCtrl = (case agg of Some a \<Rightarrow> (if NtotC a = 0 then 1 else NtotC a) | None \<Rightarrow> 1);
                 nExp = (case agg of Some a \<Rightarrow> (if NtotT a = 0 then 1 else NtotT a) | None \<Rightarrow> 1)
             in Some (computeStats muC' liftPct' (real_of_int nCtrl) (real_of_int nExp) 0.05)))"

section \<open>Decision rule sizer\<close>

datatype rule = PRIMARY | CO_PRIMARY | ANY_OF

record sizerRow =
  row_key :: metric
  row_mu :: real
  row_n :: jsnum
  row_alphaAdj :: real


definition sizerRows ::
  "row list \<Rightarrow> metric list \<Rightarrow> rule \<Rightarrow> real \<Rightarrow> real \<Rightarrow> real \<Rightarrow> sizerRow list" where
  "sizerRows data cands rl alpha pwr mdePct =
     map (\<lambda>k.
        let mu = basePerUser k data;
            sigma2 = mu * (1 + 0.05);
            mdeAbs = mu * max 0 mdePct;
            kCount = max 1 (length cands);
            alphaAdj = (if rl = PRIMARY then alpha else alpha / real kCount);
            n = computeSampleSize sigma2 mdeAbs alphaAdj pwr
        in \<lparr> row_key = k, row_mu = mu, row_n = n, row_alphaAdj = alphaAdj \<rparr>) cands"






section \<open>The rational functions of the quantile\<close>









section \<open>Frame conditions\<close>

text \<open>The property names that \<open>simulateAB\<close> computes for a metric.\<close>

definition cohortKeys :: "metric \<Rightarrow> string set" where
  "cohortKeys key = {keyName key @ ''_Control'', keyName key @ ''_Experiment''}"

text \<open>The two cells of a metric in the object at an address:
  \<open>obj[`${key}_Control`]\<close> and \<open>obj[`${key}_Experiment`]\<close>.\<close>

definition cohortCells :: "store \<Rightarrow> nat \<Rightarrow> metric \<Rightarrow> cell option \<times> cell option" where
  "cohortCells h a key =
     (cohort (h ! a) (keyName key @ ''_Control''), cohort (h ! a) (keyName key @ ''_Experiment''))"

text \<open>
  \<open>writesOnly A K h h'\<close>: the store \<open>h'\<close> has the objects of \<open>h\<close>, and differs from
  it at most in the properties named in \<open>K\<close> of the objects at the addresses in \<open>A\<close>;
  every other property of every object, the fixed ones of a daily record among them, is
  the same, and no property is removed.
\<close>

definition writesOnly :: "nat set \<Rightarrow> string set \<Rightarrow> store \<Rightarrow> store \<Rightarrow> bool" where
  "writesOnly A K h h' \<longleftrightarrow>
     length h' = length h \<and>
     (\<forall>a < length h.
        h' ! a = (h ! a)\<lparr>cohort := cohort (h' ! a)\<rparr> \<and>
        (a \<notin> A \<longrightarrow> h' ! a = h ! a) \<and>
        (\<forall>k. k \<notin> K \<longrightarrow> cohort (h' ! a) k = cohort (h ! a) k) \<and>
        (\<forall>k. cohort (h ! a) k \<noteq> None \<longrightarrow> cohort (h' ! a) k \<noteq> None))"


text \<open>
  Every stream that a run of \<open>simulateAB\<close> draws from starts in a non-zero state: the
  stream of the lift of each metric, and the stream of each day of the window for each
  metric other than \<open>DAU\<close>.
\<close>

definition seedsNonzero :: "params \<Rightarrow> row list \<Rightarrow> bool" where
  "seedsNonzero p rows \<longleftrightarrow>
     (\<forall>key \<in> set METRICS.
        mixedSeed key rows (seed p) \<noteq> 0 \<and>
        (key \<noteq> K_DAU \<longrightarrow>
           (\<forall>i \<in> set [simStartIndex (length rows) p ..< length rows].
              seed p XOR hashStr (keyName key) XOR of_nat i \<noteq> 0)))"

section \<open>Example inputs\<close>

text \<open>A three-day baseline series in a store, and the parameters of a run over its last
  two days; the concrete inputs of the instances below.\<close>

definition day1 :: row where
  "day1 = \<lparr> date = ''2025-01-01'', DAU = 1000, Sessions = 1800, Logins = 700, Signups = 50,
            VideoViews = 2500, Shares = 150, Comments = 200, Likes = 700, WAU = 600,
            label = ''1/1'', cohort = Map.empty \<rparr>"

definition day2 :: row where
  "day2 = \<lparr> date = ''2025-01-02'', DAU = 1021, Sessions = 1850, Logins = 720, Signups = 48,
            VideoViews = 2610, Shares = 140, Comments = 215, Likes = 690, WAU = 1200,
            label = ''1/2'', cohort = Map.empty \<rparr>"

definition day3 :: row where
  "day3 = \<lparr> date = ''2025-01-03'', DAU = 987, Sessions = 1790, Logins = 688, Signups = 53,
            VideoViews = 2498, Shares = 160, Comments = 185, Likes = 702, WAU = 1800,
            label = ''1/3'', cohort = Map.empty \<rparr>"

definition store3 :: store where
  "store3 = [day1, day2, day3]"

definition series3 :: "nat list" where
  "series3 = [0, 1, 2]"

definition params42 :: params where
  "params42 = \<lparr> seed = 42, splitC = 0.5, splitT = 0.5, testLen = 2, enforceNoDecline = True \<rparr>"

text \<open>A one-day series in which two metrics have the same total.\<close>

definition tieSeries :: "row list" where
  "tieSeries = [day1\<lparr>Comments := 150\<rparr>]"

text \<open>Aggregates with an empty control arm.\<close>

definition emptyArm :: "string \<rightharpoonup> aggregate" where
  "emptyArm = Map.empty(''Likes'' \<mapsto>
     \<lparr> muC = 0, muT = 0.7, liftPct = 0, aggStartIndex = 0, daysInTest = 1,
       NtotC = 0, NtotT = 500 \<rparr>)"

section \<open>The generator state\<close>

lemma xor_zero_eqD: "(x::u32) XOR y = 0 \<Longrightarrow> x = y"
proof -
  assume a: "x XOR y = 0"
  have "y = x XOR (x XOR y)" by (simp add: xor.assoc [symmetric])
  with a show "x = y" by simp
qed

lemma shl_fix_zero:
  fixes x :: u32
  assumes "x = push_bit k x" and "0 < k"
  shows "x = 0"
proof -
  have it: "x = push_bit (n * k) x" for n
  proof (induction n)
    case 0 show ?case by simp
  next
    case (Suc n)
    have "push_bit (Suc n * k) x = push_bit (n * k) (push_bit k x)"
      by (simp add: add.commute)
    with assms(1) Suc show ?case by simp
  qed
  have "32 \<le> 32 * k" using assms(2) by simp
  then have "push_bit (32 * k) x = 0" by simp
  with it [of 32] show ?thesis by simp
qed

lemma shr_fix_zero:
  fixes x :: u32
  assumes "x = drop_bit k x" and "0 < k"
  shows "x = 0"
proof -
  have it: "x = drop_bit (n * k) x" for n
  proof (induction n)
    case 0 show ?case by simp
  next
    case (Suc n)
    have "drop_bit (Suc n * k) x = drop_bit (n * k) (drop_bit k x)"
      by (simp add: add.commute)
    with assms(1) Suc show ?case by simp
  qed
  have "32 \<le> 32 * k" using assms(2) by simp
  then have "drop_bit (32 * k) x = 0" by simp
  with it [of 32] show ?thesis by simp
qed

text \<open>Each of the three xorshift steps sends only zero to zero, so the state is zero
  after a draw exactly when it was zero before.\<close>

lemma xorshift32_eq_0_iff: "xorshift32 s = 0 \<longleftrightarrow> s = 0"
proof
  assume a: "xorshift32 s = 0"
  define s1 where "s1 = s XOR push_bit 13 s"
  define s2 where "s2 = s1 XOR drop_bit 17 s1"
  from a have "s2 XOR push_bit 5 s2 = 0"
    by (simp add: xorshift32_def Let_def s1_def s2_def)
  then have "s2 = push_bit 5 s2" by (rule xor_zero_eqD)
  then have "s2 = 0" by (rule shl_fix_zero) simp
  then have "s1 = drop_bit 17 s1" unfolding s2_def by (rule xor_zero_eqD)
  then have "s1 = 0" by (rule shr_fix_zero) simp
  then have "s = push_bit 13 s" unfolding s1_def by (rule xor_zero_eqD)
  then show "s = 0" by (rule shl_fix_zero) simp
next
  assume "s = 0" then show "xorshift32 s = 0" by (simp add: xorshift32_def)
qed

lemma xorshift_iter_zero: "(xorshift32 ^^ n) 0 = 0"
  by (induction n) (simp_all add: xorshift32_def)

lemma drawNonzero_SomeD:
  assumes "drawNonzero s = Some y"
  shows "s \<noteq> 0"
proof (rule drawNonzero.raw_induct [where P = "\<lambda>s y. s \<noteq> 0", OF _ assms])
  fix f :: "u32 \<Rightarrow> (real \<times> u32) option" and s y
  assume ih: "\<And>x y. f x = Some y \<Longrightarrow> x \<noteq> 0"
    and body: "(case rand s of (u, s') \<Rightarrow> if u = 0 then f s' else Some (u, s')) = Some y"
  show "s \<noteq> 0"
  proof
    assume "s = 0"
    with body have "f 0 = Some y" by (simp add: rand_def xorshift32_def)
    with ih show False by blast
  qed
qed

lemma drawNonzero_zero: "drawNonzero 0 = None"
  using drawNonzero_SomeD [of 0] by (cases "drawNonzero 0") auto

lemma drawNonzero_nonzero:
  assumes "s \<noteq> 0"
  shows "drawNonzero s = Some (real (unat (xorshift32 s)) / 4294967295, xorshift32 s)"
proof -
  have "xorshift32 s \<noteq> 0" using assms by (simp add: xorshift32_eq_0_iff)
  then show ?thesis
    by (subst drawNonzero.simps) (simp add: rand_def Let_def unsigned_eq_0_iff)
qed

lemma boxMuller_zero: "boxMuller 0 = None"
  by (simp add: boxMuller_def drawNonzero_zero)

text \<open>From a non-zero state \<open>boxMuller\<close> returns after two draws, with a non-zero
  state.\<close>

lemma boxMuller_nonzero:
  assumes "s \<noteq> 0"
  shows "\<exists>z. boxMuller s = Some (z, xorshift32 (xorshift32 s)) \<and> xorshift32 (xorshift32 s) \<noteq> 0"
proof -
  have 1: "xorshift32 s \<noteq> 0" using assms by (simp add: xorshift32_eq_0_iff)
  then have 2: "xorshift32 (xorshift32 s) \<noteq> 0" by (simp add: xorshift32_eq_0_iff)
  show ?thesis
    using 2 by (simp add: boxMuller_def drawNonzero_nonzero [OF assms] drawNonzero_nonzero [OF 1])
qed

lemma boxMuller_eq_None_iff: "boxMuller s = None \<longleftrightarrow> s = 0"
  using boxMuller_nonzero [of s] boxMuller_zero by (cases "s = 0") auto

text \<open>
  Claim C9. The claim: the generator avoids or perturbs a seed of 0, so that the all-zero
  state is never reached and the stream is never the constant one. The code does not:
  \<open>createPRNG(0)\<close> starts in the zero state, every draw from it is 0 and leaves the
  state at zero, and \<open>boxMuller\<close>, which draws until a draw is not zero, does not return.
\<close>

theorem C9_zero_seed_degenerate:
  "createPRNG 0 = 0 \<and> (\<forall>n. (xorshift32 ^^ n) (createPRNG 0) = 0) \<and>
   (\<forall>n. draw 0 n = 0) \<and> boxMuller (createPRNG 0) = None"
  by (simp add: createPRNG_def draw_def rand_def xorshift_iter_zero boxMuller_zero)
    (simp add: xorshift32_def)

text \<open>The zero state is reached from ordinary seeds too: \<open>simulateAB\<close> seeds the
  stream of a metric and a day with \<open>seed ^ hashStr(key) ^ i\<close>, and a run in which one
  of these is zero for a metric other than \<open>DAU\<close> does not return.\<close>

lemma dayStep_zero_stream:
  assumes "key \<noteq> K_DAU" and "seed p XOR hashStr (keyName key) XOR of_nat i = 0"
  shows "dayStep p key mu lift out i st = None"
proof -
  obtain h sC sE tC tT where st: "st = (h, sC, sE, tC, tT)" by (cases rule: prod_cases5)
  show ?thesis using assms by (simp add: st Let_def createPRNG_def boxMuller_zero)
qed

lemma dayLoop_zero_stream:
  assumes "key \<noteq> K_DAU" and "i \<in> set days"
    and "seed p XOR hashStr (keyName key) XOR of_nat i = 0"
  shows "dayLoop p key mu lift out days st = None"
  using assms(2)
proof (induction days arbitrary: st)
  case Nil
  then show ?case by simp
next
  case (Cons j days)
  show ?case
  proof (cases "dayStep p key mu lift out j st")
    case None
    then show ?thesis by simp
  next
    case (Some st')
    with dayStep_zero_stream [OF assms(1), of p j mu lift out st] assms(3)
    have "j \<noteq> i" by auto
    with Cons.prems have "i \<in> set days" by simp
    from Cons.IH [OF this] Some show ?thesis by simp
  qed
qed

lemma metricStep_zero_stream:
  assumes "key \<noteq> K_DAU" and "simStartIndex (length data) p \<le> i" and "i < length data"
    and "seed p XOR hashStr (keyName key) XOR of_nat i = 0"
  shows "metricStep p data out key st = None"
proof -
  obtain h aggs where st: "st = (h, aggs)" by (cases st) auto
  have "i \<in> set [simStartIndex (length data) p ..< length data]" using assms(2,3) by simp
  from dayLoop_zero_stream [OF assms(1) this assms(4)]
  show ?thesis by (simp add: st Let_def split: option.splits)
qed

lemma forEachMetric_zero_stream:
  assumes "key \<in> set keys" and "key \<noteq> K_DAU"
    and "simStartIndex (length data) p \<le> i" and "i < length data"
    and "seed p XOR hashStr (keyName key) XOR of_nat i = 0"
  shows "forEachMetric p data out keys st = None"
  using assms(1)
proof (induction keys arbitrary: st)
  case Nil
  then show ?case by simp
next
  case (Cons k keys)
  show ?case
  proof (cases "metricStep p data out k st")
    case None
    then show ?thesis by simp
  next
    case (Some st')
    with metricStep_zero_stream [OF assms(2-5), of out st] have "k \<noteq> key" by auto
    with Cons.prems have "key \<in> set keys" by simp
    from Cons.IH [OF this] Some show ?thesis by simp
  qed
qed

text \<open>With the default 90 days and a window of 14 days, the seed 85639 gives the metric
  \<open>WAU\<close> the zero stream on day 76, whatever the series holds: the run does not return.\<close>

lemma simulateAB_seed_85639_hangs:
  assumes "length data = 90"
  shows "simulateAB h data \<lparr> seed = 85639, splitC = 0.5, splitT = 0.5, testLen = 14,
                              enforceNoDecline = True \<rparr> = None"
proof -
  let ?p = "\<lparr> seed = 85639, splitC = 0.5, splitT = 0.5, testLen = 14, enforceNoDecline = True \<rparr>"
  have k: "K_WAU \<in> set METRICS" by (simp add: METRICS_def)
  have s: "simStartIndex (length data) ?p \<le> 76" by (simp add: simStartIndex_def assms)
  have i: "76 < length data" by (simp add: assms)
  have z: "seed ?p XOR hashStr (keyName K_WAU) XOR of_nat 76 = 0" by (simp add: hashStr_def)
  have "forEachMetric ?p data [length h ..< length h + length data] METRICS
          (h @ deref h data, Map.empty) = None"
    by (rule forEachMetric_zero_stream [OF k _ s i z]) simp
  then show ?thesis by (simp add: simulateAB_def copyRows_def Let_def)
qed

section \<open>The sample-size example\<close>

text \<open>
  Claim C4. The claim: for \<open>sigma2 = 105\<close>, \<open>mdeAbs = 10\<close>, \<open>alpha = 0.05\<close>,
  \<open>power = 0.8\<close> the function returns about 34. The formula of the claim,
  \<open>ceil(2 (1.95996 + 0.84162)^2 105 / 100)\<close>, is 17, and so is the result of
  \<open>computeSampleSize\<close>.
\<close>

theorem C4_worked_example:
  "computeSampleSize 105 10 0.05 0.8 = Num 17 \<and>
   \<lceil>2 * (1.95996 + 0.84162)\<^sup>2 * 105 / (100::real)\<rceil> = 17"
  by (simp add: computeSampleSize_def plow_def phigh_def invNormMid_def Let_def power2_eq_square)

theorem C4_not_34:
  "computeSampleSize 105 10 0.05 0.8 \<noteq> Num 34 \<and>
   \<not> jge (computeSampleSize 105 10 0.05 0.8) (Num 18)"
  by (simp add: computeSampleSize_def plow_def phigh_def invNormMid_def Let_def)

section \<open>The normal distribution\<close>

lemma cdf_denominator: "1 + 2316419 / 10 ^ 7 * \<bar>x::real\<bar> \<noteq> 0"
proof -
  have "0 \<le> 2316419 / 10 ^ 7 * \<bar>x\<bar>" by simp
  then show ?thesis by linarith
qed

text \<open>On a real argument \<open>prob\<close> is a real and the same for \<open>x\<close> and \<open>- x\<close>.\<close>

lemma stdNormCDF_Num:
  "\<exists>P. stdNormCDF (Num x) = Num (if x \<ge> 0 then P else 1 - P) \<and>
       stdNormCDF (Num (- x)) = Num (if - x \<ge> 0 then P else 1 - P)"
  using cdf_denominator [of x]
  by (simp add: stdNormCDF_def Let_def jsub_def)

lemma stdNormCDF_zero: "stdNormCDF (Num 0) = Num (4999999759616472 / 10 ^ 16)"
  by (simp add: stdNormCDF_def Let_def jsub_def)

lemma stdNormCDF_symmetric:
  assumes "x \<noteq> 0"
  shows "jadd (stdNormCDF (Num (- x))) (stdNormCDF (Num x)) = Num 1"
proof -
  obtain P where a: "stdNormCDF (Num x) = Num (if x \<ge> 0 then P else 1 - P)"
    and b: "stdNormCDF (Num (- x)) = Num (if - x \<ge> 0 then P else 1 - P)"
    using stdNormCDF_Num [of x] by blast
  show ?thesis using assms by (simp add: a b)
qed

lemma invNorm_0975: "\<exists>q. invNorm (Num 0.975) = Num q \<and> \<bar>q - 1.95996\<bar> < 0.02"
proof -
  have a: "invNorm (Num 0.975) = Num (invNormMid 0.475)"
    by (simp add: plow_def phigh_def)
  have b: "\<bar>invNormMid 0.475 - 1.95996\<bar> < 0.02"
    by (simp add: invNormMid_def Let_def)
  from a b show ?thesis by blast
qed

text \<open>
  Claim C8, as amended. \<open>stdNormCDF(0)\<close> is \<open>0.4999999759616472\<close>, within \<open>10^-7\<close> of
  \<open>0.5\<close>; \<open>stdNormCDF(-x) + stdNormCDF(x) = 1\<close> for every real \<open>x\<close> other than 0, and
  at 0 the sum is within \<open>10^-7\<close> of 1; \<open>invNorm(0.975)\<close> is within \<open>0.02\<close> of
  \<open>1.95996\<close>.
\<close>

theorem C8_normal_regression:
  "(\<exists>c. stdNormCDF (Num 0) = Num c \<and> \<bar>c - 0.5\<bar> < 1 / 10 ^ 7) \<and>
   (\<forall>x. x \<noteq> 0 \<longrightarrow> jadd (stdNormCDF (Num (- x))) (stdNormCDF (Num x)) = Num 1) \<and>
   (\<exists>s. jadd (stdNormCDF (Num (- 0))) (stdNormCDF (Num 0)) = Num s \<and> \<bar>s - 1\<bar> < 1 / 10 ^ 7) \<and>
   (\<exists>q. invNorm (Num 0.975) = Num q \<and> \<bar>q - 1.95996\<bar> < 0.02)"
proof (intro conjI allI impI)
  have "\<bar>4999999759616472 / 10 ^ 16 - 0.5\<bar> < (1::real) / 10 ^ 7" by simp
  with stdNormCDF_zero
  show "\<exists>c. stdNormCDF (Num 0) = Num c \<and> \<bar>c - 0.5\<bar> < 1 / 10 ^ 7"
    by blast
  have "jadd (stdNormCDF (Num (- 0))) (stdNormCDF (Num 0)) = Num (2 * (4999999759616472 / 10 ^ 16))"
    by (simp add: stdNormCDF_zero)
  moreover have "\<bar>2 * (4999999759616472 / 10 ^ 16) - 1\<bar> < (1::real) / 10 ^ 7" by simp
  ultimately
  show "\<exists>s. jadd (stdNormCDF (Num (- 0))) (stdNormCDF (Num 0)) = Num s \<and> \<bar>s - 1\<bar> < 1 / 10 ^ 7"
    by blast
  show "\<exists>q. invNorm (Num 0.975) = Num q \<and> \<bar>q - 1.95996\<bar> < 0.02"
    by (rule invNorm_0975)
next
  fix x :: real
  assume "x \<noteq> 0"
  then show "jadd (stdNormCDF (Num (- x))) (stdNormCDF (Num x)) = Num 1"
    by (rule stdNormCDF_symmetric)
qed

theorem C8_normal_regression_witness:
  "(1::real) \<noteq> 0 \<and> jadd (stdNormCDF (Num (- 1))) (stdNormCDF (Num 1)) = Num 1"
  using C8_normal_regression by simp

text \<open>The claim as stated fails at \<open>x = 0\<close>: the two values are the same value, below
  one half.\<close>

theorem C8_symmetry_fails_at_zero:
  "jadd (stdNormCDF (Num (- 0))) (stdNormCDF (Num 0)) \<noteq> Num 1"
  by (simp add: stdNormCDF_zero)


section \<open>The lift of a metric\<close>

lemma foldl_add_sum: "foldl (\<lambda>s d. s + f d) a xs = (a::int) + sum_list (map f xs)"
  by (induction xs arbitrary: a) simp_all

lemma mixedSeed_sum:
  "mixedSeed key data sd = (sd XOR 0x9e3779b9) XOR word_of_int (\<Sum>d\<leftarrow>data. metricValue d key)"
  by (simp add: mixedSeed_def foldl_add_sum)

lemma deriveDataDrivenLift_None_iff:
  "deriveDataDrivenLift key data sd = None \<longleftrightarrow> mixedSeed key data sd = 0"
  using boxMuller_eq_None_iff [of "mixedSeed key data sd"]
  by (auto simp: deriveDataDrivenLift_def createPRNG_def split: option.splits)

text \<open>
  Claim C2. With the no-decline flag set, the lift that \<open>simulateAB\<close> uses for a
  guardrail metric is never negative; and the lift is there (the derivation returns)
  whenever the mixed seed of the metric is not zero.
\<close>

theorem C2_guardrail_lift_nonneg:
  assumes "enforceNoDecline p" and "key \<in> set GUARDRAIL_KEYS"
  shows "(\<forall>l. usedLift p key data = Some l \<longrightarrow> 0 \<le> l) \<and>
         (mixedSeed key data (seed p) \<noteq> 0 \<longrightarrow> usedLift p key data \<noteq> None)"
  using assms deriveDataDrivenLift_None_iff [of key data "seed p"]
  by (auto simp: usedLift_def split: option.splits)

theorem C2_guardrail_lift_nonneg_witness:
  "enforceNoDecline params42 \<and> K_WAU \<in> set GUARDRAIL_KEYS \<and>
   mixedSeed K_WAU (deref store3 series3) (seed params42) \<noteq> 0 \<and>
   (\<exists>l. usedLift params42 K_WAU (deref store3 series3) = Some l \<and> 0 \<le> l)"
proof -
  have a: "enforceNoDecline params42" by (simp add: params42_def)
  have b: "K_WAU \<in> set GUARDRAIL_KEYS" by (simp add: GUARDRAIL_KEYS_def)
  have c: "mixedSeed K_WAU (deref store3 series3) (seed params42) \<noteq> 0"
    by (simp add: mixedSeed_def deref_def store3_def series3_def params42_def
        day1_def day2_def day3_def)
  from C2_guardrail_lift_nonneg [OF a b, of "deref store3 series3"] c
  show ?thesis using a b by (cases "usedLift params42 K_WAU (deref store3 series3)") auto
qed

text \<open>
  Claim C3, as amended. The lift of a metric is \<open>0.10 + 0.10 Z\<close> clamped to
  \<open>[-0.5, 2.0]\<close>, where \<open>Z\<close> is the Box-Muller draw from the stream seeded with
  \<open>(seed ^ 0x9e3779b9) ^ (sum | 0)\<close>, \<open>sum\<close> being the sum of the metric's values over
  the whole series. The hash of the metric key is not part of the mix: the key matters
  only through that sum, so two metrics with the same sum get the same lift. The
  derivation returns exactly when the mixed seed is not zero.
\<close>

theorem C3_lift_from_seed_and_sum:
  "((\<Sum>d\<leftarrow>data. metricValue d key) = (\<Sum>d\<leftarrow>data'. metricValue d key')
      \<longrightarrow> deriveDataDrivenLift key data sd = deriveDataDrivenLift key' data' sd) \<and>
   (deriveDataDrivenLift key data sd \<noteq> None \<longleftrightarrow>
      (sd XOR 0x9e3779b9) XOR word_of_int (\<Sum>d\<leftarrow>data. metricValue d key) \<noteq> 0) \<and>
   (\<forall>l. deriveDataDrivenLift key data sd = Some l \<longrightarrow>
      (\<exists>z r. boxMuller (createPRNG ((sd XOR 0x9e3779b9) XOR
                 word_of_int (\<Sum>d\<leftarrow>data. metricValue d key))) = Some (z, r) \<and>
             l = clamp (0.10 + 0.10 * z) (- 0.5) 2.0 \<and> - 0.5 \<le> l \<and> l \<le> 2.0))"
proof (intro conjI allI impI)
  assume "(\<Sum>d\<leftarrow>data. metricValue d key) = (\<Sum>d\<leftarrow>data'. metricValue d key')"
  then show "deriveDataDrivenLift key data sd = deriveDataDrivenLift key' data' sd"
    by (simp add: deriveDataDrivenLift_def mixedSeed_sum)
next
  show "deriveDataDrivenLift key data sd \<noteq> None \<longleftrightarrow>
      (sd XOR 0x9e3779b9) XOR word_of_int (\<Sum>d\<leftarrow>data. metricValue d key) \<noteq> 0"
    by (simp add: deriveDataDrivenLift_None_iff mixedSeed_sum)
next
  fix l assume "deriveDataDrivenLift key data sd = Some l"
  then show "\<exists>z r. boxMuller (createPRNG ((sd XOR 0x9e3779b9) XOR
                 word_of_int (\<Sum>d\<leftarrow>data. metricValue d key))) = Some (z, r) \<and>
             l = clamp (0.10 + 0.10 * z) (- 0.5) 2.0 \<and> - 0.5 \<le> l \<and> l \<le> 2.0"
    by (auto simp: deriveDataDrivenLift_def mixedSeed_sum clamp_def split: option.splits)
qed

theorem C3_lift_from_seed_and_sum_witness:
  "(\<Sum>d\<leftarrow>tieSeries. metricValue d K_Shares) = (\<Sum>d\<leftarrow>tieSeries. metricValue d K_Comments) \<and>
   deriveDataDrivenLift K_Shares tieSeries 42 = deriveDataDrivenLift K_Comments tieSeries 42 \<and>
   (\<exists>l. deriveDataDrivenLift K_Shares tieSeries 42 = Some l \<and> - 0.5 \<le> l \<and> l \<le> 2.0)"
proof -
  have a: "(\<Sum>d\<leftarrow>tieSeries. metricValue d K_Shares) = (\<Sum>d\<leftarrow>tieSeries. metricValue d K_Comments)"
    by (simp add: tieSeries_def day1_def)
  have b: "((42::u32) XOR 0x9e3779b9) XOR word_of_int (\<Sum>d\<leftarrow>tieSeries. metricValue d K_Shares) \<noteq> 0"
    by (simp add: tieSeries_def day1_def)
  note t = C3_lift_from_seed_and_sum [where data = tieSeries and key = K_Shares
      and data' = tieSeries and key' = K_Comments and sd = 42]
  from t a have c: "deriveDataDrivenLift K_Shares tieSeries 42 = deriveDataDrivenLift K_Comments tieSeries 42"
    by blast
  from t b obtain l where l: "deriveDataDrivenLift K_Shares tieSeries 42 = Some l" by blast
  with t have "- 0.5 \<le> l \<and> l \<le> 2.0" by blast
  with a c l show ?thesis by blast
qed

text \<open>The claim as stated fails: the keys \<open>Shares\<close> and \<open>Comments\<close> have different
  hashes, and on a series where their sums agree they get the same stream and the same
  lift.\<close>

theorem C3_key_hash_not_mixed:
  "hashStr (keyName K_Shares) \<noteq> hashStr (keyName K_Comments) \<and>
   mixedSeed K_Shares tieSeries 42 = mixedSeed K_Comments tieSeries 42 \<and>
   deriveDataDrivenLift K_Shares tieSeries 42 = deriveDataDrivenLift K_Comments tieSeries 42 \<and>
   deriveDataDrivenLift K_Shares tieSeries 42 \<noteq> None"
proof -
  have h: "hashStr (keyName K_Shares) \<noteq> hashStr (keyName K_Comments)"
    by (simp add: hashStr_def)
  have m: "mixedSeed K_Shares tieSeries 42 = mixedSeed K_Comments tieSeries 42"
    by (simp add: mixedSeed_def tieSeries_def day1_def)
  have n: "mixedSeed K_Shares tieSeries 42 \<noteq> 0"
    by (simp add: mixedSeed_def tieSeries_def day1_def)
  have d: "deriveDataDrivenLift K_Shares tieSeries 42 = deriveDataDrivenLift K_Comments tieSeries 42"
    by (simp add: deriveDataDrivenLift_def m)
  from h m n d show ?thesis by (simp add: deriveDataDrivenLift_None_iff)
qed

section \<open>Statistics with an empty arm\<close>

lemma twoTailedP_zero: "twoTailedP (Num 0) = Num (10000000480767056 / 10 ^ 16)"
  by (simp add: twoTailedP_def stdNormCDF_zero jsub_def)

lemma zero_arm_se:
  assumes "0 < vC" "0 < vT" "0 \<le> nC" "0 \<le> nT" "nC = 0 \<or> nT = 0"
  shows "jsqrt (jadd (jdiv (Num vT) (Num nT)) (jdiv (Num vC) (Num nC))) = PInf"
  using assms by (auto simp: signedInf_def)

lemma zero_arm_stats:
  assumes "0 < mu" "- 1 < lp" "- 1 < vb" "0 \<le> nC" "0 \<le> nT" "nC = 0 \<or> nT = 0"
  shows "st_z (computeStats mu lp nC nT vb) = Num 0 \<and>
         st_p (computeStats mu lp nC nT vb) = Num (10000000480767056 / 10 ^ 16) \<and>
         st_ciLow (computeStats mu lp nC nT vb) = NInf \<and>
         st_ciHigh (computeStats mu lp nC nT vb) = PInf \<and>
         st_lift (computeStats mu lp nC nT vb) = Num lp"
proof -
  have vC: "0 < mu * (1 + vb)" using assms by simp
  have vT: "0 < mu * (1 + lp) * (1 + vb)" using assms by simp
  have se: "jsqrt (jadd (jdiv (Num (mu * (1 + lp) * (1 + vb))) (Num nT))
                    (jdiv (Num (mu * (1 + vb))) (Num nC))) = PInf"
    by (rule zero_arm_se [OF vC vT assms(4) assms(5) assms(6)])
  have l: "(mu * (1 + lp) - mu) / mu = lp" using assms(1) by (simp add: field_simps)
  show ?thesis
    unfolding computeStats_def Let_def stats.simps se
    using assms(1) by (simp add: twoTailedP_zero jsub_def signedInf_def zCritical_def l)
qed

text \<open>The table never passes a zero arm size.\<close>

lemma tableStats_arms:
  assumes "tableStats aggs key data sd = Some s"
  shows "\<exists>mu lp nC nT. s = computeStats mu lp nC nT 0.05 \<and> nC \<noteq> 0 \<and> nT \<noteq> 0"
proof (cases "aggs (keyName key)")
  case None
  with assms obtain l where
    "s = computeStats (basePerUser key data)
           (if basePerUser key data > 0
            then basePerUser key data * (1 + l) / basePerUser key data - 1 else 0) 1 1 0.05"
    by (auto simp: tableStats_def Let_def split: option.splits)
  moreover have "(1::real) \<noteq> 0" by simp
  ultimately show ?thesis by blast
next
  case (Some a)
  define nC where "nC = real_of_int (if NtotC a = 0 then 1 else NtotC a)"
  define nT where "nT = real_of_int (if NtotT a = 0 then 1 else NtotT a)"
  have "nC \<noteq> 0" "nT \<noteq> 0" by (simp_all add: nC_def nT_def)
  moreover from assms Some
  have "s = computeStats (muC a) (if muC a > 0 then muT a / muC a - 1 else 0) nC nT 0.05"
    by (auto simp: tableStats_def Let_def nC_def nT_def)
  ultimately show ?thesis by blast
qed

text \<open>
  Claim C1, as amended. \<open>computeStats\<close> does not guard the division by the arm sizes.
  It raises nothing: with \<open>nC = 0\<close> or \<open>nT = 0\<close>, a positive control mean, a lift above
  \<open>-1\<close> and a variance boost above \<open>-1\<close>, the division gives an infinite standard
  error, and the function returns the numbers \<open>z = 0\<close>, \<open>p = twoTailedP(0)\<close> (about
  \<open>1.00000005\<close>) and \<open>lift = liftPct\<close> with the interval from minus to plus infinity:
  a result of no significance, not an error value. The guard is in its caller, which
  replaces an arm size of zero by 1 before it calls.
\<close>

theorem C1_zero_arm_unguarded:
  "(0 < mu \<and> - 1 < lp \<and> - 1 < vb \<and> 0 \<le> nC \<and> 0 \<le> nT \<and> (nC = 0 \<or> nT = 0) \<longrightarrow>
      st_z (computeStats mu lp nC nT vb) = Num 0 \<and>
      st_p (computeStats mu lp nC nT vb) = Num (10000000480767056 / 10 ^ 16) \<and>
      st_ciLow (computeStats mu lp nC nT vb) = NInf \<and>
      st_ciHigh (computeStats mu lp nC nT vb) = PInf \<and>
      st_lift (computeStats mu lp nC nT vb) = Num lp) \<and>
   (\<forall>s. tableStats aggs key data sd = Some s \<longrightarrow>
      (\<exists>mu' lp' nC' nT'. s = computeStats mu' lp' nC' nT' 0.05 \<and> nC' \<noteq> 0 \<and> nT' \<noteq> 0))"
  using zero_arm_stats [of mu lp vb nC nT] tableStats_arms [of aggs key data sd]
  by blast

theorem C1_zero_arm_unguarded_witness:
  "(0 < (2::real) \<and> - 1 < (0::real) \<and> - 1 < (0.05::real) \<and> (0::real) \<le> 300 \<and> (0::real) \<le> 0 \<and>
     ((300::real) = 0 \<or> (0::real) = 0)) \<and>
   st_z (computeStats 2 0 300 0 0.05) = Num 0 \<and>
   st_ciHigh (computeStats 2 0 300 0 0.05) = PInf \<and>
   tableStats emptyArm K_Likes [] 42 = Some (computeStats 0 0 1 500 0.05) \<and>
   (\<exists>mu' lp' nC' nT'. computeStats 0 0 1 500 0.05 = computeStats mu' lp' nC' nT' 0.05 \<and>
      nC' \<noteq> 0 \<and> nT' \<noteq> 0)"
proof -
  have t: "tableStats emptyArm K_Likes [] 42 = Some (computeStats 0 0 1 500 0.05)"
    by (simp add: tableStats_def emptyArm_def Let_def)
  from C1_zero_arm_unguarded [of 2 0 "0.05" 300 0 emptyArm K_Likes "[]" 42] t
  show ?thesis by simp
qed

text \<open>The claim as stated fails: with an empty control arm the result is made of
  numbers.\<close>

theorem C1_zero_arm_returns_numbers:
  "st_z (computeStats 1 0.1 0 100 0.05) = Num 0 \<and>
   st_p (computeStats 1 0.1 0 100 0.05) = Num (10000000480767056 / 10 ^ 16) \<and>
   st_lift (computeStats 1 0.1 0 100 0.05) = Num 0.1 \<and>
   \<not> isNaN (st_z (computeStats 1 0.1 0 100 0.05)) \<and>
   \<not> isNaN (st_p (computeStats 1 0.1 0 100 0.05))"
  by (simp add: computeStats_def Let_def signedInf_def twoTailedP_zero isNaN_def)

section \<open>The store during a simulation\<close>

lemma length_setCohort [simp]: "length (setCohort a k v h) = length h"
  by (simp add: setCohort_def)

lemma nth_setCohort:
  "setCohort a k v h ! b =
     (if b = a \<and> a < length h then (h ! a)\<lparr>cohort := (cohort (h ! a))(k \<mapsto> v)\<rparr> else h ! b)"
proof (cases "a < length h")
  case True
  then show ?thesis by (simp add: setCohort_def nth_list_update)
next
  case False
  then show ?thesis by (simp add: setCohort_def list_update_beyond)
qed

lemma writesOnly_refl: "writesOnly A K h h"
  by (simp add: writesOnly_def)

lemma writesOnly_trans:
  assumes 1: "writesOnly A K h h'" and 2: "writesOnly A' K' h' h''"
  shows "writesOnly (A \<union> A') (K \<union> K') h h''"
  unfolding writesOnly_def
proof (intro conjI allI impI)
  show "length h'' = length h" using 1 2 by (simp add: writesOnly_def)
next
  fix a assume a: "a < length h"
  then have a': "a < length h'" using 1 by (simp add: writesOnly_def)
  have e1: "h' ! a = (h ! a)\<lparr>cohort := cohort (h' ! a)\<rparr>" using 1 a by (simp add: writesOnly_def)
  have e2: "h'' ! a = (h' ! a)\<lparr>cohort := cohort (h'' ! a)\<rparr>" using 2 a' by (simp add: writesOnly_def)
  show "h'' ! a = (h ! a)\<lparr>cohort := cohort (h'' ! a)\<rparr>"
    by (subst e2, subst e1) simp
  { assume "a \<notin> A \<union> A'"
    then show "h'' ! a = h ! a" using 1 2 a a' by (simp add: writesOnly_def) }
  { fix k assume "k \<notin> K \<union> K'"
    then show "cohort (h'' ! a) k = cohort (h ! a) k" using 1 2 a a' by (simp add: writesOnly_def) }
  { fix k assume "cohort (h ! a) k \<noteq> None"
    then have "cohort (h' ! a) k \<noteq> None" using 1 a by (simp add: writesOnly_def)
    then show "cohort (h'' ! a) k \<noteq> None" using 2 a' by (simp add: writesOnly_def) }
qed

lemma writesOnly_mono:
  "writesOnly A K h h' \<Longrightarrow> A \<subseteq> A' \<Longrightarrow> K \<subseteq> K' \<Longrightarrow> writesOnly A' K' h h'"
  unfolding writesOnly_def by blast

lemma writesOnly_setCohort: "writesOnly {a} {k} h (setCohort a k v h)"
  by (simp add: writesOnly_def nth_setCohort)

text \<open>Two writes to one object.\<close>

lemma writesOnly_setCohort2:
  "writesOnly {a} {k1, k2} h (setCohort a k2 v' (setCohort a k1 v h))"
  by (simp add: writesOnly_def nth_setCohort)

lemma writesOnly_nullLoop:
  "writesOnly (set out) {k @ ''_Control'', k @ ''_Experiment''} h (nullLoop k out h)"
proof (induction out arbitrary: h)
  case Nil
  show ?case by (simp add: writesOnly_refl)
next
  case (Cons a out)
  have "writesOnly ({a} \<union> set out)
          ({k @ ''_Control'', k @ ''_Experiment''} \<union> {k @ ''_Control'', k @ ''_Experiment''}) h
          (nullLoop k out (setCohort a (k @ ''_Experiment'') Null
             (setCohort a (k @ ''_Control'') Null h)))"
    by (rule writesOnly_trans [OF writesOnly_setCohort2 Cons.IH])
  then show ?case by simp
qed

lemma dayStep_writesOnly:
  assumes "dayStep p key mu lift out i (h, acc) = Some (h', acc')"
  shows "writesOnly {out ! i} (cohortKeys key) h h'"
proof -
  obtain sC sE tC tT where acc: "acc = (sC, sE, tC, tT)" by (cases acc) auto
  from assms show ?thesis
    unfolding acc cohortKeys_def
    by (auto simp: Let_def writesOnly_setCohort2 split: if_splits option.splits)
qed

lemma dayLoop_writesOnly:
  assumes "dayLoop p key mu lift out days (h, acc) = Some (h', acc')"
  shows "writesOnly ((!) out ` set days) (cohortKeys key) h h'"
  using assms
proof (induction days arbitrary: h acc)
  case Nil
  then show ?case by (simp add: writesOnly_refl)
next
  case (Cons i days)
  from Cons.prems obtain h1 acc1 where
    s: "dayStep p key mu lift out i (h, acc) = Some (h1, acc1)"
    and r: "dayLoop p key mu lift out days (h1, acc1) = Some (h', acc')"
    by (auto split: option.splits)
  from writesOnly_trans [OF dayStep_writesOnly [OF s] Cons.IH [OF r]]
  show ?case by simp
qed


lemma writesOnly_length: "writesOnly A K h h' \<Longrightarrow> length h' = length h"
  by (simp add: writesOnly_def)


lemma writesOnly_cells_addr:
  "writesOnly A K h h' \<Longrightarrow> a < length h \<Longrightarrow> a \<notin> A \<Longrightarrow> cohortCells h' a m = cohortCells h a m"
  by (simp add: writesOnly_def cohortCells_def)


lemma writesOnly_unchanged:
  "writesOnly A K h h' \<Longrightarrow> a < length h \<Longrightarrow> a \<notin> A \<Longrightarrow> h' ! a = h ! a"
  by (simp add: writesOnly_def)

lemma writesOnly_deref:
  assumes "writesOnly A K h h'" and "\<forall>a\<in>set data. a < length h \<and> a \<notin> A"
  shows "deref h' data = deref h data"
  using assms by (auto simp: deref_def writesOnly_def)

lemma keyName_suffix_neq: "k @ ''_Control'' \<noteq> k @ ''_Experiment''"
  by simp

lemma nullLoop_cells:
  assumes "a \<in> set out" and "a < length h"
  shows "cohortCells (nullLoop (keyName m) out h) a m = (Some Null, Some Null)"
  using assms
proof (induction out arbitrary: h)
  case Nil
  then show ?case by simp
next
  case (Cons b out)
  let ?h2 = "setCohort b (keyName m @ ''_Experiment'') Null
               (setCohort b (keyName m @ ''_Control'') Null h)"
  show ?case
  proof (cases "a \<in> set out")
    case True
    with Cons.IH [of ?h2] Cons.prems show ?thesis by simp
  next
    case False
    with Cons.prems have ab: "a = b" by simp
    have "cohortCells (nullLoop (keyName m) out ?h2) a m = cohortCells ?h2 a m"
      using writesOnly_cells_addr [OF writesOnly_nullLoop, of a ?h2 out "keyName m" m] False Cons.prems
      by simp
    also have "\<dots> = (Some Null, Some Null)"
      using Cons.prems ab by (simp add: cohortCells_def nth_setCohort)
    finally show ?thesis by simp
  qed
qed




text \<open>What one pass of the \<open>forEach\<close> body leaves in the cells of its metric.\<close>

lemma metricStep_frame:
  assumes "metricStep p data out key (h, aggs) = Some (h', aggs')"
    and "length out = length data"
  shows "writesOnly (set out) (cohortKeys key) h h'"
proof -
  let ?start = "simStartIndex (length data) p"
  from assms(1) obtain lift h1 acc1 where
    d: "dayLoop p key (basePerUserUntil key (deref h data) ?start) lift out
          [?start ..< length data] (nullLoop (keyName key) out h, 0, 0, 0, 0) = Some (h1, acc1)"
    and h': "h' = h1"
    by (auto simp: Let_def split: option.splits)
  have "(!) out ` set [?start ..< length data] \<subseteq> set out"
    using assms(2) by auto
  from writesOnly_mono [OF dayLoop_writesOnly [OF d] this subset_refl]
  have "writesOnly (set out) (cohortKeys key) (nullLoop (keyName key) out h) h1" .
  from writesOnly_trans [OF writesOnly_nullLoop this] h'
  show ?thesis by (simp add: cohortKeys_def)
qed


lemma forEachMetric_frame:
  assumes "forEachMetric p data out keys (h, aggs) = Some (h', aggs')"
    and "length out = length data"
  shows "writesOnly (set out) (\<Union> (cohortKeys ` set keys)) h h'"
  using assms(1)
proof (induction keys arbitrary: h aggs)
  case Nil
  then show ?case by (simp add: writesOnly_refl)
next
  case (Cons key keys)
  from Cons.prems obtain h1 aggs1 where
    s: "metricStep p data out key (h, aggs) = Some (h1, aggs1)"
    and r: "forEachMetric p data out keys (h1, aggs1) = Some (h', aggs')"
    by (auto split: option.splits)
  from writesOnly_trans [OF metricStep_frame [OF s assms(2)] Cons.IH [OF r]]
  show ?case by simp
qed


text \<open>Termination of the loops.\<close>

lemma dayStep_returns:
  assumes "key = K_DAU \<or> seed p XOR hashStr (keyName key) XOR of_nat i \<noteq> 0"
  shows "\<exists>st'. dayStep p key mu lift out i st = Some st'"
proof -
  obtain h sC sE tC tT where st: "st = (h, sC, sE, tC, tT)" by (cases rule: prod_cases5)
  show ?thesis
  proof (cases "key = K_DAU")
    case True
    then show ?thesis by (simp add: st Let_def)
  next
    case False
    with assms have nz: "seed p XOR hashStr (keyName key) XOR of_nat i \<noteq> 0" by simp
    from boxMuller_nonzero [OF nz] obtain z1 where
      b1: "boxMuller (seed p XOR hashStr (keyName key) XOR of_nat i) =
             Some (z1, xorshift32 (xorshift32 (seed p XOR hashStr (keyName key) XOR of_nat i)))"
      and nz1: "xorshift32 (xorshift32 (seed p XOR hashStr (keyName key) XOR of_nat i)) \<noteq> 0"
      by blast
    from boxMuller_nonzero [OF nz1] obtain z2 r2 where
      b2: "boxMuller (xorshift32 (xorshift32 (seed p XOR hashStr (keyName key) XOR of_nat i))) =
             Some (z2, r2)"
      by blast
    show ?thesis using False by (simp add: st Let_def createPRNG_def b1 b2)
  qed
qed

lemma dayLoop_returns:
  assumes "key = K_DAU \<or> (\<forall>i\<in>set days. seed p XOR hashStr (keyName key) XOR of_nat i \<noteq> 0)"
  shows "\<exists>st'. dayLoop p key mu lift out days st = Some st'"
  using assms
proof (induction days arbitrary: st)
  case Nil
  then show ?case by (simp del: split_paired_Ex)
next
  case (Cons i days)
  from Cons.prems have "key = K_DAU \<or> seed p XOR hashStr (keyName key) XOR of_nat i \<noteq> 0"
    by auto
  from dayStep_returns [OF this] obtain st1 where
    s: "dayStep p key mu lift out i st = Some st1" by blast
  from Cons.prems have "key = K_DAU \<or> (\<forall>i\<in>set days. seed p XOR hashStr (keyName key) XOR of_nat i \<noteq> 0)"
    by auto
  from Cons.IH [OF this, of st1] s show ?case by simp
qed

lemma usedLift_returns:
  "mixedSeed key data (seed p) \<noteq> 0 \<Longrightarrow> \<exists>l. usedLift p key data = Some l"
  using deriveDataDrivenLift_None_iff [of key data "seed p"]
  by (cases "deriveDataDrivenLift key data (seed p)") (auto simp: usedLift_def)

lemma metricStep_returns:
  assumes "mixedSeed key (deref h data) (seed p) \<noteq> 0"
    and "key = K_DAU \<or> (\<forall>i\<in>set [simStartIndex (length data) p ..< length data].
           seed p XOR hashStr (keyName key) XOR of_nat i \<noteq> 0)"
  shows "\<exists>st'. metricStep p data out key (h, aggs) = Some st'"
proof -
  from usedLift_returns [OF assms(1)] obtain l where
    l: "usedLift p key (deref h data) = Some l" by blast
  from dayLoop_returns [OF assms(2)] obtain st1 where
    d: "dayLoop p key (basePerUserUntil key (deref h data) (simStartIndex (length data) p)) l out
          [simStartIndex (length data) p ..< length data]
          (nullLoop (keyName key) out h, 0, 0, 0, 0) = Some st1"
    by blast
  obtain h1 sC sE tC tT where st1: "st1 = (h1, sC, sE, tC, tT)" by (cases rule: prod_cases5)
  show ?thesis using l d by (simp add: Let_def st1)
qed

lemma forEachMetric_returns:
  assumes "\<forall>key\<in>set keys. mixedSeed key (deref h data) (seed p) \<noteq> 0 \<and>
             (key \<noteq> K_DAU \<longrightarrow> (\<forall>i\<in>set [simStartIndex (length data) p ..< length data].
                seed p XOR hashStr (keyName key) XOR of_nat i \<noteq> 0))"
    and "length out = length data"
    and "\<forall>a\<in>set data. a < length h \<and> a \<notin> set out"
  shows "\<exists>st'. forEachMetric p data out keys (h, aggs) = Some st'"
  using assms(1,3)
proof (induction keys arbitrary: h aggs)
  case Nil
  then show ?case by (simp del: split_paired_Ex)
next
  case (Cons key keys)
  have "\<exists>st'. metricStep p data out key (h, aggs) = Some st'"
    using Cons.prems(1) by (intro metricStep_returns) auto
  then obtain h1 aggs1 where s: "metricStep p data out key (h, aggs) = Some (h1, aggs1)"
    by (cases "metricStep p data out key (h, aggs)") auto
  note w = metricStep_frame [OF s assms(2)]
  have dr: "deref h1 data = deref h data"
    using writesOnly_deref [OF w] Cons.prems(2) by simp
  have "\<forall>a\<in>set data. a < length h1 \<and> a \<notin> set out"
    using Cons.prems(2) writesOnly_length [OF w] by simp
  moreover have "\<forall>key\<in>set keys. mixedSeed key (deref h1 data) (seed p) \<noteq> 0 \<and>
             (key \<noteq> K_DAU \<longrightarrow> (\<forall>i\<in>set [simStartIndex (length data) p ..< length data].
                seed p XOR hashStr (keyName key) XOR of_nat i \<noteq> 0))"
    using Cons.prems(1) dr by simp
  ultimately obtain st' where "forEachMetric p data out keys (h1, aggs1) = Some st'"
    using Cons.IH by blast
  with s show ?case by simp
qed

section \<open>Runs on two stores\<close>





lemma deref_append: "\<forall>a\<in>set data. a < length pre \<Longrightarrow> deref (pre @ R) data = deref pre data"
  by (simp add: deref_def nth_append)



lemma writesOnly_kept:
  "writesOnly A K h h' \<Longrightarrow> a < length h \<Longrightarrow> cohort (h ! a) k \<noteq> None \<Longrightarrow>
   cohort (h' ! a) k \<noteq> None"
  by (simp add: writesOnly_def)

lemma writesOnly_base:
  "writesOnly A K h h' \<Longrightarrow> a < length h \<Longrightarrow> h' ! a = (h ! a)\<lparr>cohort := cohort (h' ! a)\<rparr>"
  by (simp add: writesOnly_def)

lemma writesOnly_other_key:
  "writesOnly A K h h' \<Longrightarrow> a < length h \<Longrightarrow> k \<notin> K \<Longrightarrow> cohort (h' ! a) k = cohort (h ! a) k"
  by (simp add: writesOnly_def)

lemma metricStep_cells_set:
  assumes "metricStep p data out key (h, aggs) = Some (h', aggs')"
    and "length out = length data" and "\<forall>a\<in>set out. a < length h"
    and "a \<in> set out" and "k \<in> cohortKeys key"
  shows "cohort (h' ! a) k \<noteq> None"
proof -
  let ?start = "simStartIndex (length data) p"
  let ?h0 = "nullLoop (keyName key) out h"
  from assms(1) obtain lift acc1 where
    d: "dayLoop p key (basePerUserUntil key (deref h data) ?start) lift out
          [?start ..< length data] (?h0, 0, 0, 0, 0) = Some (h', acc1)"
    by (auto simp: Let_def split: option.splits)
  have len0: "length ?h0 = length h"
    using writesOnly_nullLoop [of out "keyName key" h] by (rule writesOnly_length)
  have a: "a < length h" using assms(3,4) by simp
  have "cohortCells ?h0 a key = (Some Null, Some Null)"
    using nullLoop_cells [OF assms(4) a] .
  then have "cohort (?h0 ! a) k \<noteq> None"
    using assms(5) by (auto simp: cohortCells_def cohortKeys_def)
  with writesOnly_kept [OF dayLoop_writesOnly [OF d]] a len0 show ?thesis by simp
qed

lemma forEachMetric_cells_set:
  assumes "forEachMetric p data out keys (h, aggs) = Some (h', aggs')"
    and "length out = length data" and "\<forall>a\<in>set out. a < length h"
    and "a \<in> set out" and "key \<in> set keys" and "k \<in> cohortKeys key"
  shows "cohort (h' ! a) k \<noteq> None"
  using assms(1,3,5)
proof (induction keys arbitrary: h aggs)
  case Nil
  then show ?case by simp
next
  case (Cons m keys)
  from Cons.prems(1) obtain h1 aggs1 where
    s: "metricStep p data out m (h, aggs) = Some (h1, aggs1)"
    and r: "forEachMetric p data out keys (h1, aggs1) = Some (h', aggs')"
    by (auto split: option.splits)
  have len1: "length h1 = length h"
    using metricStep_frame [OF s assms(2)] by (rule writesOnly_length)
  have o1: "\<forall>a\<in>set out. a < length h1" using Cons.prems(2) len1 by simp
  show ?case
  proof (cases "key \<in> set keys")
    case True
    from Cons.IH [OF r o1 True] show ?thesis .
  next
    case False
    with Cons.prems(3) have "key = m" by simp
    with metricStep_cells_set [OF s assms(2) Cons.prems(2) assms(4)] assms(6)
    have "cohort (h1 ! a) k \<noteq> None" by simp
    with writesOnly_kept [OF forEachMetric_frame [OF r assms(2)]] o1 assms(4)
    show ?thesis by simp
  qed
qed

lemma simulateAB_Some:
  assumes "simulateAB h data p = Some (h', res)"
  shows "\<exists>aggs. forEachMetric p data [length h ..< length h + length data] METRICS
                   (h @ deref h data, Map.empty) = Some (h', aggs) \<and>
                res = \<lparr> simData = [length h ..< length h + length data], aggregates = aggs,
                        startIndex = simStartIndex (length data) p \<rparr>"
  using assms by (auto simp: simulateAB_def copyRows_def Let_def split: option.splits)


lemma copy_nth: "i < length data \<Longrightarrow> (h @ deref h data) ! (length h + i) = h ! (data ! i)"
  by (simp add: deref_def nth_append)

text \<open>
  Claim C10. \<open>simulateAB\<close> does not write to its input. After a call that returns,
  the store is the old store followed by one new object per record of the series: every
  object that existed before the call, the records of the series among them, is unchanged.
  The returned \<open>simData\<close> is the list of the new addresses. The new object for day
  \<open>i\<close> has the date, the label and every metric value of the input record of day
  \<open>i\<close>; among the computed property names it differs from that record only under
  \<open>`${key}_Control`\<close> and \<open>`${key}_Experiment`\<close> for the keys of \<open>METRICS\<close>,
  and each of those is set.
\<close>

theorem C10_input_unchanged:
  assumes "simulateAB h data p = Some (h', res)"
  shows "length h' = length h + length data \<and> take (length h) h' = h \<and>
         simData res = [length h ..< length h + length data] \<and>
         (\<forall>i < length data.
            h' ! (simData res ! i) = (h ! (data ! i))\<lparr>cohort := cohort (h' ! (simData res ! i))\<rparr> \<and>
            (\<forall>k. k \<notin> \<Union> (cohortKeys ` set METRICS) \<longrightarrow>
                 cohort (h' ! (simData res ! i)) k = cohort (h ! (data ! i)) k) \<and>
            (\<forall>k. k \<in> \<Union> (cohortKeys ` set METRICS) \<longrightarrow>
                 cohort (h' ! (simData res ! i)) k \<noteq> None))"
proof -
  let ?n = "length h" and ?len = "length data"
  let ?out = "[?n ..< ?n + ?len]" and ?h1 = "h @ deref h data"
  from simulateAB_Some [OF assms] obtain aggs where
    run: "forEachMetric p data ?out METRICS (?h1, Map.empty) = Some (h', aggs)"
    and res: "simData res = ?out"
    by auto
  have lo: "length ?out = ?len" by simp
  have len1: "length ?h1 = ?n + ?len" by (simp add: deref_def)
  note w = forEachMetric_frame [OF run lo]
  have len': "length h' = ?n + ?len" using writesOnly_length [OF w] len1 by simp
  have pre: "take ?n h' = h"
  proof (rule nth_equalityI)
    show "length (take ?n h') = length h" using len' by simp
  next
    fix a assume "a < length (take ?n h')"
    then have a: "a < ?n" by simp
    then have "h' ! a = ?h1 ! a"
      using writesOnly_unchanged [OF w, of a] len1 by simp
    then show "take ?n h' ! a = h ! a" using a by (simp add: nth_append)
  qed
  have rows: "h' ! (simData res ! i) = (h ! (data ! i))\<lparr>cohort := cohort (h' ! (simData res ! i))\<rparr> \<and>
            (\<forall>k. k \<notin> \<Union> (cohortKeys ` set METRICS) \<longrightarrow>
                 cohort (h' ! (simData res ! i)) k = cohort (h ! (data ! i)) k) \<and>
            (\<forall>k. k \<in> \<Union> (cohortKeys ` set METRICS) \<longrightarrow>
                 cohort (h' ! (simData res ! i)) k \<noteq> None)"
    if i: "i < ?len" for i
  proof -
    have oi: "simData res ! i = ?n + i" using i by (simp add: res)
    have a: "?n + i < length ?h1" using i len1 by simp
    have c: "?h1 ! (?n + i) = h ! (data ! i)" by (rule copy_nth [OF i])
    have 1: "h' ! (?n + i) = (h ! (data ! i))\<lparr>cohort := cohort (h' ! (?n + i))\<rparr>"
      using writesOnly_base [OF w a] unfolding c .
    have 2: "cohort (h' ! (?n + i)) k = cohort (h ! (data ! i)) k"
      if "k \<notin> \<Union> (cohortKeys ` set METRICS)" for k
      using writesOnly_other_key [OF w a that] unfolding c .
    have 3: "cohort (h' ! (?n + i)) k \<noteq> None" if "k \<in> \<Union> (cohortKeys ` set METRICS)" for k
    proof -
      from that obtain key where "key \<in> set METRICS" "k \<in> cohortKeys key" by blast
      then show ?thesis
        using forEachMetric_cells_set [OF run lo, of "?n + i" key k] i len1 by simp
    qed
    from 1 2 3 show ?thesis unfolding oi by blast
  qed
  from len' pre res rows show ?thesis by blast
qed


lemma simulateAB_returns:
  assumes "\<forall>a\<in>set data. a < length h" and "seedsNonzero p (deref h data)"
  shows "\<exists>h' res. simulateAB h data p = Some (h', res)"
proof -
  let ?n = "length h" and ?len = "length data"
  let ?out = "[?n ..< ?n + ?len]" and ?h1 = "h @ deref h data"
  have d: "deref ?h1 data = deref h data" by (rule deref_append [OF assms(1)])
  have l: "length (deref h data) = ?len" by (simp add: deref_def)
  have "\<exists>st'. forEachMetric p data ?out METRICS (?h1, Map.empty) = Some st'"
  proof (rule forEachMetric_returns)
    show "\<forall>key\<in>set METRICS. mixedSeed key (deref ?h1 data) (seed p) \<noteq> 0 \<and>
             (key \<noteq> K_DAU \<longrightarrow> (\<forall>i\<in>set [simStartIndex ?len p ..< ?len].
                seed p XOR hashStr (keyName key) XOR of_nat i \<noteq> 0))"
      using assms(2) unfolding seedsNonzero_def d l by blast
    show "length ?out = ?len" by simp
    show "\<forall>a\<in>set data. a < length ?h1 \<and> a \<notin> set ?out" using assms(1) by auto
  qed
  then obtain h' aggs where "forEachMetric p data ?out METRICS (?h1, Map.empty) = Some (h', aggs)"
    by auto
  then show ?thesis by (simp add: simulateAB_def copyRows_def Let_def)
qed


section \<open>The cohort sizes\<close>





text \<open>Doubles by their binade: a number in \<open>[2^n, 2^(n+1))\<close> is rounded to a multiple of
  \<open>2^(n-52)\<close>.\<close>

lemma powr_neg_nat: "(2::real) powr (- real n) = 1 / 2 ^ n"
  by (simp add: powr_minus powr_realpow divide_inverse)

lemma ulpExp_eq:
  assumes "2 powr of_int k \<le> \<bar>x\<bar>" and "\<bar>x\<bar> < 2 powr of_int (k + 1)" and "- 1022 \<le> k"
  shows "ulpExp x = k - 52"
proof -
  have "0 < (2::real) powr of_int k" by simp
  with assms(1) have "0 < \<bar>x\<bar>" by linarith
  then have "\<lfloor>log 2 \<bar>x\<bar>\<rfloor> = k"
    using assms(1,2) by (subst floor_log_eq_powr_iff) simp_all
  then show ?thesis using assms(3) by (simp add: ulpExp_def)
qed

lemma float64_ge1:
  assumes "2 ^ n \<le> \<bar>x\<bar>" and "\<bar>x\<bar> < 2 * 2 ^ n" and "n \<le> 52"
  shows "float64 x = of_int (roundTiesEven (x * 2 ^ (52 - n))) / 2 ^ (52 - n)"
proof -
  have a: "2 powr of_int (int n) \<le> \<bar>x\<bar>" using assms(1) by (simp add: powr_realpow)
  have "(2::real) powr of_int (int n + 1) = 2 * 2 ^ n"
    by (simp add: powr_add powr_realpow)
  then have b: "\<bar>x\<bar> < 2 powr of_int (int n + 1)" using assms(2) by simp
  have e: "ulpExp x = int n - 52" by (rule ulpExp_eq [OF a b]) simp
  have r: "real_of_int (int n - 52) = - real (52 - n)" using assms(3) by simp
  have "(2::real) powr of_int (int n - 52) = 1 / 2 ^ (52 - n)"
    by (simp only: r powr_neg_nat)
  then show ?thesis by (simp add: float64_def e)
qed

lemma float64_lt1:
  assumes "1 / 2 ^ n \<le> \<bar>x\<bar>" and "\<bar>x\<bar> < 2 / 2 ^ n" and "n \<le> 1022"
  shows "float64 x = of_int (roundTiesEven (x * 2 ^ (52 + n))) / 2 ^ (52 + n)"
proof -
  have a: "2 powr of_int (- int n) \<le> \<bar>x\<bar>" using assms(1) by (simp add: powr_neg_nat)
  have "(2::real) powr (1 + - real n) = 2 powr 1 * 2 powr (- real n)"
    by (rule powr_add)
  then have "(2::real) powr of_int (- int n + 1) = 2 / 2 ^ n"
    by (simp add: powr_neg_nat add.commute)
  then have b: "\<bar>x\<bar> < 2 powr of_int (- int n + 1)" using assms(2) by simp
  have "- 1022 \<le> - int n" using assms(3) by simp
  then have e: "ulpExp x = - int n - 52" by (rule ulpExp_eq [OF a b])
  have r: "real_of_int (- int n - 52) = - real (52 + n)" by simp
  have "(2::real) powr of_int (- int n - 52) = 1 / 2 ^ (52 + n)"
    by (simp only: r powr_neg_nat)
  then show ?thesis by (simp add: float64_def e)
qed


lemma round_035: "roundTiesEven ((7 / 20) * 2 ^ (52 + 2)) = 6305039478318694"
  by (simp add: roundTiesEven_def)

text \<open>The double of the literal \<open>0.35\<close> is below \<open>0.35\<close>.\<close>

lemma float64_035: "float64 (7 / 20) = 6305039478318694 / 2 ^ 54"
proof -
  have "float64 (7 / 20) = of_int (roundTiesEven ((7 / 20) * 2 ^ (52 + 2))) / 2 ^ (52 + 2)"
    by (rule float64_lt1) simp_all
  then show ?thesis by (simp only: round_035) simp
qed

lemma round_03: "roundTiesEven ((3 / 10) * 2 ^ (52 + 2)) = 5404319552844595"
  by (simp add: roundTiesEven_def)

lemma float64_03: "float64 (3 / 10) = 5404319552844595 / 2 ^ 54"
proof -
  have "float64 (3 / 10) = of_int (roundTiesEven ((3 / 10) * 2 ^ (52 + 2))) / 2 ^ (52 + 2)"
    by (rule float64_lt1) simp_all
  then show ?thesis by (simp only: round_03) simp
qed

lemma clamp_unit: "0 \<le> x \<Longrightarrow> x \<le> 1 \<Longrightarrow> clamp x 0 1 = x"
  by (simp add: clamp_def)

lemma cohortSize_value:
  assumes "float64 s = t" and "0 \<le> t" and "t \<le> 1"
    and "2 ^ n \<le> \<bar>real_of_int d * t\<bar>" and "\<bar>real_of_int d * t\<bar> < 2 * 2 ^ n" and "n \<le> 52"
    and "roundTiesEven (real_of_int d * t * 2 ^ (52 - n)) = k"
    and "\<lfloor>real_of_int k / 2 ^ (52 - n)\<rfloor> = c" and "0 \<le> c"
  shows "cohortSize d s = c"
proof -
  have cl: "clamp (float64 s) 0 1 = t"
    unfolding assms(1) by (rule clamp_unit [OF assms(2,3)])
  have "float64 (real_of_int d * t) =
          of_int (roundTiesEven (real_of_int d * t * 2 ^ (52 - n))) / 2 ^ (52 - n)"
    by (rule float64_ge1 [OF assms(4,5,6)])
  then have "float64 (real_of_int d * t) = real_of_int k / 2 ^ (52 - n)"
    by (simp only: assms(7))
  then have "\<lfloor>float64 (real_of_int d * clamp (float64 s) 0 1)\<rfloor> = c"
    by (simp only: cl assms(8))
  then show ?thesis using assms(9) by (simp only: cohortSize_def max_def) simp
qed

text \<open>The rounding of the product decides the cohort size: with a DAU of 1300 and a split
  of \<open>0.35\<close> the product is the double below 455, and with a DAU of 940 and a split of
  \<open>0.3\<close> the product is 282, where the exact product of 940 and the double of \<open>0.3\<close> is
  below 282.\<close>

lemma cohortSize_1300_035: "cohortSize 1300 0.35 = 454"
proof -
  have "cohortSize 1300 (7 / 20) = 454"
  proof (rule cohortSize_value [where t = "6305039478318694 / 2 ^ 54" and n = 8
        and k = 8004444650209279])
    show "float64 (7 / 20) = 6305039478318694 / 2 ^ 54" by (rule float64_035)
    show "roundTiesEven (real_of_int 1300 * (6305039478318694 / 2 ^ 54) * 2 ^ (52 - 8))
            = 8004444650209279"
      by (simp add: roundTiesEven_def)
    show "\<lfloor>real_of_int 8004444650209279 / 2 ^ (52 - 8)\<rfloor> = 454" by simp
  qed simp_all
  then show ?thesis by simp
qed

lemma cohortSize_940_03: "cohortSize 940 0.3 = 282"
proof -
  have "cohortSize 940 (3 / 10) = 282"
  proof (rule cohortSize_value [where t = "5404319552844595 / 2 ^ 54" and n = 8
        and k = 4960996464525312])
    show "float64 (3 / 10) = 5404319552844595 / 2 ^ 54" by (rule float64_03)
    show "roundTiesEven (real_of_int 940 * (5404319552844595 / 2 ^ 54) * 2 ^ (52 - 8))
            = 4960996464525312"
      by (simp add: roundTiesEven_def)
    show "\<lfloor>real_of_int 4960996464525312 / 2 ^ (52 - 8)\<rfloor> = 282" by simp
  qed simp_all
  then show ?thesis by simp
qed

lemma exact_product_940_03: "\<lfloor>real_of_int 940 * float64 (3 / 10)\<rfloor> = 281"
  by (simp only: float64_03) simp



section \<open>The cells of a run\<close>


lemma series3_valid: "\<forall>a\<in>set series3. a < length store3"
  by (simp add: series3_def store3_def)

lemma deref_store3: "deref store3 series3 = [day1, day2, day3]"
  by (simp add: deref_def store3_def series3_def)

lemma start_params42: "simStartIndex 3 params42 = 1"
  by (simp add: simStartIndex_def params42_def)

lemma upt_1_3: "[1 ..< 3] = [1, 2::nat]"
  by (simp add: upt_rec)

lemma window_params42:
  "[simStartIndex (length [day1, day2, day3]) params42 ..< length [day1, day2, day3]] = [1, 2]"
  by (simp add: simStartIndex_def params42_def upt_rec)

lemma seedsNonzero_params42: "seedsNonzero params42 (deref store3 series3)"
  unfolding seedsNonzero_def deref_store3 window_params42
  by (simp add: METRICS_def mixedSeed_def hashStr_def params42_def day1_def day2_def day3_def)



theorem C10_input_unchanged_witness:
  "\<exists>h' res. simulateAB store3 series3 params42 = Some (h', res) \<and>
      length h' = 6 \<and> take 3 h' = store3 \<and> simData res = [3, 4, 5] \<and>
      h' ! 4 = day2\<lparr>cohort := cohort (h' ! 4)\<rparr> \<and>
      cohort (h' ! 4) ''DAU'' = None \<and> cohort (h' ! 4) ''Likes_Control'' \<noteq> None"
proof -
  from simulateAB_returns [OF series3_valid seedsNonzero_params42] obtain h' res where
    sim: "simulateAB store3 series3 params42 = Some (h', res)" by blast
  note t = C10_input_unchanged [OF sim]
  have l: "length series3 = 3" "length store3 = 3" by (simp_all add: series3_def store3_def)
  have u: "[3 ..< 6] = [3, 4, 5::nat]" by (simp add: upt_rec)
  from t have a: "length h' = 6" "take 3 h' = store3" "simData res = [3, 4, 5]"
    by (simp_all add: l u)
  from t have every: "\<forall>i < length series3.
            h' ! (simData res ! i) = (store3 ! (series3 ! i))\<lparr>cohort := cohort (h' ! (simData res ! i))\<rparr> \<and>
            (\<forall>k. k \<notin> \<Union> (cohortKeys ` set METRICS) \<longrightarrow>
                 cohort (h' ! (simData res ! i)) k = cohort (store3 ! (series3 ! i)) k) \<and>
            (\<forall>k. k \<in> \<Union> (cohortKeys ` set METRICS) \<longrightarrow>
                 cohort (h' ! (simData res ! i)) k \<noteq> None)"
    by blast
  have r: "h' ! (simData res ! 1) = (store3 ! (series3 ! 1))\<lparr>cohort := cohort (h' ! (simData res ! 1))\<rparr> \<and>
            (\<forall>k. k \<notin> \<Union> (cohortKeys ` set METRICS) \<longrightarrow>
                 cohort (h' ! (simData res ! 1)) k = cohort (store3 ! (series3 ! 1)) k) \<and>
            (\<forall>k. k \<in> \<Union> (cohortKeys ` set METRICS) \<longrightarrow>
                 cohort (h' ! (simData res ! 1)) k \<noteq> None)"
    by (rule every [rule_format]) (simp add: l)
  have b: "h' ! 4 = day2\<lparr>cohort := cohort (h' ! 4)\<rparr>"
    using r by (simp add: a series3_def store3_def)
  have "''DAU'' \<notin> \<Union> (cohortKeys ` set METRICS)"
    by (simp add: METRICS_def cohortKeys_def)
  with r have c: "cohort (h' ! 4) ''DAU'' = None"
    by (simp add: a series3_def store3_def day2_def)
  have "''Likes_Control'' \<in> \<Union> (cohortKeys ` set METRICS)"
    by (simp add: METRICS_def cohortKeys_def)
  with r have d: "cohort (h' ! 4) ''Likes_Control'' \<noteq> None"
    by (simp add: a)
  from sim a b c d show ?thesis by blast
qed


section \<open>Monotonicity of the sample size\<close>

lemma invNorm_Num_cases:
  "invNorm (Num p) = NaN \<longleftrightarrow> p \<le> 0 \<or> p \<ge> 1"
  by simp


















































section \<open>Decision rules\<close>






lemma row_key_sizerRows: "map row_key (sizerRows data cands rl a pw m) = cands"
  by (simp add: sizerRows_def Let_def comp_def)

























end
